theory Spec2Isabelle
  imports Main "HOL-Library.FSet"
begin

section \<open>Floors, people and errors\<close>

text \<open>
  A floor carries its level (\<open>building.py\<close>, class \<open>Floor\<close>, property \<open>level\<close>);
  \<open>Building.add_floor\<close> numbers the floors of a building 1, 2, ... in insertion order.
  Two floors of one building are the same floor exactly when their levels agree, so a
  floor is identified with its level.
\<close>

datatype Floor = Floor (level: int)

text \<open>
  Modelled from the spec: \<open>Floor.distance\<close>, which \<open>elevator.py\<close> calls as
  \<open>self.location.distance(floor)\<close>. The class \<open>Floor\<close> of \<open>building.py\<close> has no such
  method and the package module that \<open>elevator.py\<close> imports \<open>Floor\<close> from is not among
  the sources. The spec: distance(other) = |level difference|.
\<close>

definition floor_distance :: "Floor \<Rightarrow> Floor \<Rightarrow> int" where
  "floor_distance a b = \<bar>level a - level b\<bar>"

text \<open>
  Modelled from the spec: \<open>Floor.direction\<close>, which \<open>person.py\<close> calls as
  \<open>self.location.direction(next_event.location)\<close>; it is missing from the sources like
  \<open>Floor.distance\<close>. The spec: direction(other) = sign of (other.level - level).
\<close>

definition floor_direction :: "Floor \<Rightarrow> Floor \<Rightarrow> int" where
  "floor_direction a b = sgn (level b - level a)"

text \<open>A person is known by its \<open>person_id\<close> (\<open>person.py\<close>, \<open>Person.__init__\<close>).\<close>

type_synonym Person = nat

text \<open>
  The exceptions the code raises, by Python class. A \<open>ValueError\<close> and a
  \<open>RuntimeError\<close> carry the message of the raise site (without the formatted
  argument); the others are raised by the interpreter: \<open>KeyError\<close> by a dictionary
  lookup or \<open>set.remove\<close>, \<open>IndexError\<close> by indexing an empty tuple,
  \<open>AttributeError\<close> by a method call on \<open>None\<close>, \<open>NameError\<close> by reading a loop
  variable that no iteration has bound.
\<close>

datatype error =
    ValueError string
  | RuntimeError string
  | KeyError
  | IndexError
  | AttributeError
  | NameError

section \<open>Elevator\<close>

text \<open>
  The fields of class \<open>Elevator\<close>. \<open>stops\<close> is the Python set \<open>__stops\<close>, held as the
  duplicate-free list of its elements in the order iteration yields them;
  \<open>direction\<close> is \<open>None\<close>, 0, 1 or -1 (the setter refuses anything else).
\<close>

record Elevator =
  valid_floors :: "Floor list"
  stops :: "Floor list"
  capacity :: int
  direction :: "int option"
  passengers :: "Person fset"
  doors_open :: bool
  location :: Floor

text \<open>
  \<open>Elevator.__init__\<close>. The keyword arguments \<open>capacity\<close> and \<open>starting_location\<close> are
  optional. The default of \<open>starting_location\<close>, \<open>self.__valid_floors[0]\<close>, is
  evaluated whether or not the argument is given, so an empty floor tuple raises
  \<open>IndexError\<close>: every elevator has at least one valid floor.
\<close>

definition Elevator_init :: "Floor list \<Rightarrow> int option \<Rightarrow> Floor option \<Rightarrow> error + Elevator" where
  "Elevator_init floors_arg capacity_arg starting_location =
     (case floors_arg of
        [] \<Rightarrow> Inl IndexError
      | first_floor # _ \<Rightarrow>
          Inr \<lparr> valid_floors = floors_arg,
                stops = [],
                capacity = (case capacity_arg of None \<Rightarrow> 10 | Some c \<Rightarrow> c),
                direction = None,
                passengers = {||},
                doors_open = False,
                location = (case starting_location of None \<Rightarrow> first_floor | Some s \<Rightarrow> s) \<rparr>)"

definition full :: "Elevator \<Rightarrow> bool" where
  "full e = (int (fcard (passengers e)) \<ge> capacity e)"

definition is_open :: "Elevator \<Rightarrow> bool" where
  "is_open e = doors_open e"

definition open_doors :: "Elevator \<Rightarrow> Elevator" where
  "open_doors e = e\<lparr>doors_open := True\<rparr>"

definition close_doors :: "Elevator \<Rightarrow> Elevator" where
  "close_doors e = e\<lparr>doors_open := False\<rparr>"

text \<open>
  A mutating method returns its outcome together with the elevator as the call leaves
  it, also when it raises.
\<close>

definition enter :: "Elevator \<Rightarrow> Person \<Rightarrow> (error + unit) \<times> Elevator" where
  "enter e person =
     (if is_open e then
        (if full e then (Inl (RuntimeError ''Unable to enter elevator, would exceed capacity''), e)
         else (Inr (), e\<lparr>passengers := finsert person (passengers e)\<rparr>))
      else (Inl (RuntimeError ''Unable to enter elevator, doors are closed''), e))"

text \<open>\<open>set.remove\<close> raises \<open>KeyError\<close> when the element is absent.\<close>

definition exit_elevator :: "Elevator \<Rightarrow> Person \<Rightarrow> (error + unit) \<times> Elevator" where
  "exit_elevator e person =
     (if is_open e then
        (if person |\<in>| passengers e
         then (Inr (), e\<lparr>passengers := passengers e |-| {|person|}\<rparr>)
         else (Inl KeyError, e))
      else (Inl (RuntimeError ''Unable to exit elevator, doors are closed''), e))"

definition distance :: "Elevator \<Rightarrow> Floor \<Rightarrow> int" where
  "distance e fl = floor_distance (location e) fl"

text \<open>\<open>not self.direction\<close>: true for \<open>None\<close> and for 0.\<close>

definition idle :: "Elevator \<Rightarrow> bool" where
  "idle e = (case direction e of None \<Rightarrow> True | Some d \<Rightarrow> d = 0)"

text \<open>
  \<open>next_location\<close>. A \<open>Floor\<close> object is always true, so \<open>not self.location\<close> is false.
  The clamped level lies in 1 .. len(valid_floors), so the index is in range for every
  elevator the constructor built.
\<close>

definition next_location :: "Elevator \<Rightarrow> Floor" where
  "next_location e =
     (case direction e of
        None \<Rightarrow> location e
      | Some d \<Rightarrow>
          if d = 0 then location e
          else
            let next_level = level (location e) + d;
                next_level = min (max 1 next_level) (int (length (valid_floors e)))
            in valid_floors e ! nat (next_level - 1))"

definition moving_away :: "Elevator \<Rightarrow> Floor \<Rightarrow> bool" where
  "moving_away e fl = (floor_distance (next_location e) fl > floor_distance (location e) fl)"

definition set_direction :: "Elevator \<Rightarrow> int option \<Rightarrow> (error + unit) \<times> Elevator" where
  "set_direction e v =
     (if v \<notin> {Some 1, Some (- 1), Some 0, None}
      then (Inl (ValueError ''Direction must be one of the following values''), e)
      else (Inr (), e\<lparr>direction := v\<rparr>))"

definition set_location :: "Elevator \<Rightarrow> Floor \<Rightarrow> Elevator" where
  "set_location e fl = e\<lparr>location := fl\<rparr>"

text \<open>
  \<open>next_direction\<close>. \<open>valid_floors[0]\<close> and \<open>valid_floors[-1]\<close> are the first and the last
  element of a tuple the constructor made sure is not empty. \<open>list(self.stops)[0]\<close> is
  the first stop the set's iteration yields. The test \<open>not self.direction\<close> holds for
  \<open>None\<close> and for 0, so the idle branch stands under both cases of the direction.
\<close>

definition next_direction :: "Elevator \<Rightarrow> int" where
  "next_direction e =
     (if location e = hd (valid_floors e) then 1
      else if location e = last (valid_floors e) then - 1
      else
        (case direction e of
           None \<Rightarrow>
             (if stops e = [] \<or> location e \<in> set (stops e) then 0
              else if distance e (hd (stops e)) > 0 then 1 else - 1)
         | Some d \<Rightarrow>
             if d = 0 then
               (if stops e = [] \<or> location e \<in> set (stops e) then 0
                else if distance e (hd (stops e)) > 0 then 1 else - 1)
             else
               let moving_towards_stop = \<not> list_all (moving_away e) (stops e)
               in if moving_towards_stop then d else - 1 * d))"

text \<open>
  \<open>add_stop\<close> and \<open>remove_stop\<close>. Adding to a set an element it holds changes nothing;
  where a new element lands in the iteration order is left open by Python, the model
  puts it last.
\<close>

definition add_stop :: "Elevator \<Rightarrow> Floor \<Rightarrow> (error + unit) \<times> Elevator" where
  "add_stop e fl =
     (if fl \<in> set (valid_floors e)
      then (Inr (), if fl \<in> set (stops e) then e else e\<lparr>stops := stops e @ [fl]\<rparr>)
      else (Inl (ValueError ''Floor does not exist in the list of valid floors for this elevator''), e))"

definition remove_stop :: "Elevator \<Rightarrow> Floor \<Rightarrow> (error + unit) \<times> Elevator" where
  "remove_stop e fl =
     (if fl \<in> set (stops e)
      then (Inr (), e\<lparr>stops := removeAll fl (stops e)\<rparr>)
      else (Inl (ValueError ''Floor cannot be removed because it is not a stop on the elevator''), e))"

subsection \<open>Sequences of calls on one elevator\<close>

datatype elevator_op =
    Enter Person
  | Exit Person
  | OpenDoors
  | CloseDoors
  | AddStop Floor
  | RemoveStop Floor
  | SetDirection "int option"
  | SetLocation Floor

fun apply_op :: "Elevator \<Rightarrow> elevator_op \<Rightarrow> Elevator" where
  "apply_op e (Enter p) = snd (enter e p)"
| "apply_op e (Exit p) = snd (exit_elevator e p)"
| "apply_op e OpenDoors = open_doors e"
| "apply_op e CloseDoors = close_doors e"
| "apply_op e (AddStop fl) = snd (add_stop e fl)"
| "apply_op e (RemoveStop fl) = snd (remove_stop e fl)"
| "apply_op e (SetDirection v) = snd (set_direction e v)"
| "apply_op e (SetLocation fl) = set_location e fl"

text \<open>A caller that goes on after a call raised: the elevator is as the call left it.\<close>

fun run_ops :: "Elevator \<Rightarrow> elevator_op list \<Rightarrow> Elevator" where
  "run_ops e [] = e"
| "run_ops e (x # xs) = run_ops (apply_op e x) xs"

text \<open>Boarding the people of a list one after the other, stopping at the first raise.\<close>

fun board_all :: "Elevator \<Rightarrow> Person list \<Rightarrow> (error + unit) \<times> Elevator" where
  "board_all e [] = (Inr (), e)"
| "board_all e (p # ps) =
     (case enter e p of
        (Inl err, e') \<Rightarrow> (Inl err, e')
      | (Inr _, e') \<Rightarrow> board_all e' ps)"

section \<open>ElevatorBank\<close>

text \<open>
  The fields of class \<open>ElevatorBank\<close>. \<open>elevators\<close> is the Python set \<open>__elevators\<close> as
  the tuple the property \<open>elevators\<close> makes of it: its elements in the order iteration
  yields them. The two wait lists are dictionaries from floor to a set of people.
\<close>

record ElevatorBank =
  floors :: "Floor list"
  elevators :: "Elevator list"
  wait_list_up :: "Floor \<rightharpoonup> Person fset"
  wait_list_down :: "Floor \<rightharpoonup> Person fset"

definition ElevatorBank_init :: "Floor list \<Rightarrow> ElevatorBank" where
  "ElevatorBank_init floors_arg =
     \<lparr> floors = floors_arg,
       elevators = [],
       wait_list_up = (\<lambda>fl. if fl \<in> set floors_arg then Some {||} else None),
       wait_list_down = (\<lambda>fl. if fl \<in> set floors_arg then Some {||} else None) \<rparr>"

text \<open>
  \<open>__wait_set\<close> returns a reference to a set inside one of the two dictionaries; the
  model returns which dictionary it is together with the set's content.
\<close>

datatype wait_list = UpList | DownList

definition wait_set :: "ElevatorBank \<Rightarrow> Floor \<Rightarrow> int option \<Rightarrow> error + (wait_list \<times> Person fset)" where
  "wait_set b fl dir =
     (case dir of
        None \<Rightarrow> Inl (ValueError ''Not a valid direction'')
      | Some d \<Rightarrow>
          if d = 0 then Inl (ValueError ''Not a valid direction'')
          else if d > 0 then
            (case wait_list_up b fl of None \<Rightarrow> Inl KeyError | Some s \<Rightarrow> Inr (UpList, s))
          else if d < 0 then
            (case wait_list_down b fl of None \<Rightarrow> Inl KeyError | Some s \<Rightarrow> Inr (DownList, s))
          else Inl (ValueError ''Not a valid direction''))"

definition store_wait_set :: "ElevatorBank \<Rightarrow> wait_list \<Rightarrow> Floor \<Rightarrow> Person fset \<Rightarrow> ElevatorBank" where
  "store_wait_set b w fl s =
     (case w of
        UpList \<Rightarrow> b\<lparr>wait_list_up := (wait_list_up b)(fl \<mapsto> s)\<rparr>
      | DownList \<Rightarrow> b\<lparr>wait_list_down := (wait_list_down b)(fl \<mapsto> s)\<rparr>)"

definition wait :: "ElevatorBank \<Rightarrow> Person \<Rightarrow> Floor \<Rightarrow> int option \<Rightarrow> (error + unit) \<times> ElevatorBank" where
  "wait b person fl dir =
     (case wait_set b fl dir of
        Inl err \<Rightarrow> (Inl err, b)
      | Inr (w, s) \<Rightarrow> (Inr (), store_wait_set b w fl (finsert person s)))"

definition stop_waiting :: "ElevatorBank \<Rightarrow> Person \<Rightarrow> Floor \<Rightarrow> int option \<Rightarrow> (error + unit) \<times> ElevatorBank" where
  "stop_waiting b person fl dir =
     (case wait_set b fl dir of
        Inl err \<Rightarrow> (Inl err, b)
      | Inr (w, s) \<Rightarrow>
          if person |\<in>| s then (Inr (), store_wait_set b w fl (s |-| {|person|}))
          else (Inl KeyError, b))"

definition waiting_passengers :: "ElevatorBank \<Rightarrow> Floor \<Rightarrow> int option \<Rightarrow> error + Person fset" where
  "waiting_passengers b fl dir =
     (case wait_set b fl dir of
        Inl err \<Rightarrow> Inl err
      | Inr (w, s) \<Rightarrow> Inr s)"

text \<open>
  \<open>add_elevator\<close>. The new elevator joins the set \<open>__elevators\<close>. In which order the
  set yields its elements afterwards is the interpreter's choice, not the code's:
  \<open>iteration_order\<close> stands for that choice, a rearrangement of the elevators the
  set holds.
\<close>

definition add_elevator ::
  "ElevatorBank \<Rightarrow> int option \<Rightarrow> Floor option \<Rightarrow> (Elevator list \<Rightarrow> Elevator list) \<Rightarrow>
     (error + Elevator) \<times> ElevatorBank" where
  "add_elevator b capacity_arg starting_location iteration_order =
     (case Elevator_init (floors b) capacity_arg starting_location of
        Inl err \<Rightarrow> (Inl err, b)
      | Inr e \<Rightarrow> (Inr e, b\<lparr>elevators := iteration_order (e # elevators b)\<rparr>))"

subsection \<open>The dispatch strategy\<close>

text \<open>The score the loop body of \<open>nearest_elevator_dispatch_strategy\<close> computes.\<close>

definition suitability :: "Floor list \<Rightarrow> Floor \<Rightarrow> int option \<Rightarrow> Elevator \<Rightarrow> int" where
  "suitability floor_list fl dir elevator =
     (let dist = distance elevator fl in
      if moving_away elevator fl \<and> dist \<noteq> 0 then 1
      else if direction elevator = dir \<or> idle elevator then int (length floor_list) + 2 - dist
      else int (length floor_list) + 1 - dist)"

text \<open>
  The loop over \<open>elevator_list\<close>: \<open>i\<close> is the position of the elevator at hand, \<open>result\<close>
  the pair of the best elevator so far (by position, \<open>None\<close> before any) and its
  score.
\<close>

fun dispatch_loop ::
  "Floor list \<Rightarrow> Floor \<Rightarrow> int option \<Rightarrow> nat \<Rightarrow> Elevator list \<Rightarrow> nat option \<times> int \<Rightarrow> nat option \<times> int" where
  "dispatch_loop floor_list fl dir i [] result = result"
| "dispatch_loop floor_list fl dir i (elevator # rest) result =
     (let s = suitability floor_list fl dir elevator;
          (best_elevator, best_suitability) = result
      in dispatch_loop floor_list fl dir (Suc i) rest
           (if s > best_suitability then (Some i, s) else result))"

definition nearest_elevator_dispatch_strategy ::
  "Elevator list \<Rightarrow> Floor list \<Rightarrow> Floor \<Rightarrow> int option \<Rightarrow> nat option" where
  "nearest_elevator_dispatch_strategy elevator_list floor_list fl dir =
     fst (dispatch_loop floor_list fl dir 0 elevator_list (None, - 1))"

text \<open>
  \<open>call_to\<close> with the default strategy. The strategy's \<open>None\<close> makes
  \<open>elevator.add_stop\<close> raise \<open>AttributeError\<close>; the result is the position of the
  elevator the call returns.
\<close>

definition call_to :: "ElevatorBank \<Rightarrow> Floor \<Rightarrow> int option \<Rightarrow> (error + nat) \<times> ElevatorBank" where
  "call_to b fl dir =
     (case nearest_elevator_dispatch_strategy (elevators b) (floors b) fl dir of
        None \<Rightarrow> (Inl AttributeError, b)
      | Some i \<Rightarrow>
          (case add_stop (elevators b ! i) fl of
             (Inl err, e') \<Rightarrow> (Inl err, b\<lparr>elevators := (elevators b)[i := e']\<rparr>)
           | (Inr _, e') \<Rightarrow> (Inr i, b\<lparr>elevators := (elevators b)[i := e']\<rparr>)))"

section \<open>The person's travel cycle\<close>

text \<open>
  \<open>Person.run\<close>, the loop \<open>for agent in elevator_banks\<close>: the person registers with
  each bank the call strategy returned and calls it. The result holds the banks as
  the loop leaves them and the loop variable \<open>agent\<close> (the position of the bank of
  the last iteration begun, \<open>None\<close> when there was none).
\<close>

fun call_banks ::
  "Person \<Rightarrow> Floor \<Rightarrow> int option \<Rightarrow> nat \<Rightarrow> nat option \<Rightarrow> ElevatorBank list \<Rightarrow>
     (error + unit) \<times> nat option \<times> ElevatorBank list" where
  "call_banks person start dir i agent [] = (Inr (), agent, [])"
| "call_banks person start dir i agent (bank # rest) =
     (case wait bank person start dir of
        (Inl err, bank') \<Rightarrow> (Inl err, Some i, bank' # rest)
      | (Inr _, bank') \<Rightarrow>
          (case call_to bank' start dir of
             (Inl err, bank'') \<Rightarrow> (Inl err, Some i, bank'' # rest)
           | (Inr _, bank'') \<Rightarrow>
               (case call_banks person start dir (Suc i) (Some i) rest of
                  (r, agent', rest') \<Rightarrow> (r, agent', bank'' # rest'))))"

text \<open>
  The statement after the door-open event, \<open>agent.stop_waiting(self, ...)\<close>: \<open>agent\<close> is
  the variable the loop left behind.
\<close>

definition door_opened ::
  "Person \<Rightarrow> Floor \<Rightarrow> int option \<Rightarrow> nat option \<Rightarrow> ElevatorBank list \<Rightarrow> (error + unit) \<times> ElevatorBank list" where
  "door_opened person start dir agent banks =
     (case agent of
        None \<Rightarrow> (Inl NameError, banks)
      | Some i \<Rightarrow>
          (case stop_waiting (banks ! i) person start dir of
             (r, bank') \<Rightarrow> (r, banks[i := bank'])))"

text \<open>
  One cycle from the call to boarding: the trip's direction is that from the start
  to the end floor, the person calls the chosen banks and, when the door-open event
  arrives, stops waiting.
\<close>

definition call_and_board ::
  "Person \<Rightarrow> Floor \<Rightarrow> Floor \<Rightarrow> ElevatorBank list \<Rightarrow> (error + unit) \<times> ElevatorBank list" where
  "call_and_board person start_location end_location elevator_banks =
     (let dir = Some (floor_direction start_location end_location) in
      case call_banks person start_location dir 0 None elevator_banks of
        (Inl err, agent, banks) \<Rightarrow> (Inl err, banks)
      | (Inr _, agent, banks) \<Rightarrow> door_opened person start_location dir agent banks)"

section \<open>Invariants and example states\<close>

text \<open>
  What \<open>ElevatorBank.__init__\<close> establishes and no method changes: each wait list
  has exactly the serviced floors as its keys.
\<close>

definition bank_invariant :: "ElevatorBank \<Rightarrow> bool" where
  "bank_invariant b =
     (dom (wait_list_up b) = set (floors b) \<and> dom (wait_list_down b) = set (floors b))"

definition example_floors :: "Floor list" where
  "example_floors = [Floor 1, Floor 2, Floor 3]"

text \<open>An idle elevator on the middle floor of three, doors closed, room for two.\<close>

definition example_elevator :: Elevator where
  "example_elevator =
     \<lparr> valid_floors = example_floors, stops = [], capacity = 2, direction = None,
       passengers = {||}, doors_open = False, location = Floor 2 \<rparr>"

text \<open>The elevator of a building with a single floor.\<close>

definition single_floor_elevator :: Elevator where
  "single_floor_elevator =
     \<lparr> valid_floors = [Floor 1], stops = [], capacity = 10, direction = None,
       passengers = {||}, doors_open = False, location = Floor 1 \<rparr>"

text \<open>A bank over three floors with one elevator, built by the bank's own methods.\<close>

definition example_bank :: ElevatorBank where
  "example_bank = snd (add_elevator (ElevatorBank_init example_floors) None None id)"

text \<open>
  What \<open>add_elevator\<close> establishes and no method changes: every elevator of the bank
  has the bank's floors as its valid floors.
\<close>

definition elevators_share_floors :: "ElevatorBank \<Rightarrow> bool" where
  "elevators_share_floors b = list_all (\<lambda>e. valid_floors e = floors b) (elevators b)"

text \<open>Every elevator of the bank stands on one of the bank's floors.\<close>

definition elevators_on_floors :: "ElevatorBank \<Rightarrow> bool" where
  "elevators_on_floors b = list_all (\<lambda>e. location e \<in> set (floors b)) (elevators b)"

text \<open>What \<open>Building.add_floor\<close> establishes: the levels of F floors lie in 1 .. F.\<close>

definition levels_in_range :: "Floor list \<Rightarrow> bool" where
  "levels_in_range fs = list_all (\<lambda>g. 1 \<le> level g \<and> level g \<le> int (length fs)) fs"

text \<open>
  The example bank with a second elevator, standing on the top floor, once for each
  of the two orders in which the set of the two elevators can be iterated: the
  elevator on floor 1 first, and the elevator on floor 3 first.
\<close>

definition example_bank2 :: ElevatorBank where
  "example_bank2 = snd (add_elevator example_bank None (Some (Floor 3)) rev)"

definition example_bank2_other_order :: ElevatorBank where
  "example_bank2_other_order = snd (add_elevator example_bank None (Some (Floor 3)) id)"

text \<open>A bank over two floors whose levels are 1 and 10, with one elevator on level 1.\<close>

definition gapped_bank :: ElevatorBank where
  "gapped_bank = snd (add_elevator (ElevatorBank_init [Floor 1, Floor 10]) None None id)"

section \<open>The bank's invariant\<close>

lemma bank_invariant_init: "bank_invariant (ElevatorBank_init fs)"
  by (auto simp add: bank_invariant_def ElevatorBank_init_def dom_def)

lemma bank_invariant_add_elevator:
  "bank_invariant b \<Longrightarrow> bank_invariant (snd (add_elevator b c s ord))"
  by (auto simp add: bank_invariant_def add_elevator_def split: sum.splits)

lemma bank_invariant_example: "bank_invariant example_bank"
  unfolding example_bank_def
  by (rule bank_invariant_add_elevator) (rule bank_invariant_init)

lemma floors_example_bank: "floors example_bank = example_floors"
  by (simp add: example_bank_def add_elevator_def ElevatorBank_init_def Elevator_init_def
      example_floors_def)

lemma serviced_up:
  "bank_invariant b \<Longrightarrow> fl \<in> set (floors b) \<Longrightarrow> \<exists>s. wait_list_up b fl = Some s"
  by (auto simp add: bank_invariant_def)

lemma serviced_down:
  "bank_invariant b \<Longrightarrow> fl \<in> set (floors b) \<Longrightarrow> \<exists>s. wait_list_down b fl = Some s"
  by (auto simp add: bank_invariant_def)

lemma bank_invariant_wait: "bank_invariant b \<Longrightarrow> bank_invariant (snd (wait b p fl dir))"
  by (auto simp add: bank_invariant_def wait_def wait_set_def store_wait_set_def
      split: option.splits if_splits)

lemma bank_invariant_stop_waiting:
  "bank_invariant b \<Longrightarrow> bank_invariant (snd (stop_waiting b p fl dir))"
  by (auto simp add: bank_invariant_def stop_waiting_def wait_set_def store_wait_set_def
      split: option.splits if_splits)

lemma bank_invariant_call_to: "bank_invariant b \<Longrightarrow> bank_invariant (snd (call_to b fl dir))"
  by (auto simp add: bank_invariant_def call_to_def split: option.splits prod.splits sum.splits)

lemma elevators_share_floors_init: "elevators_share_floors (ElevatorBank_init fs)"
  by (simp add: elevators_share_floors_def ElevatorBank_init_def)

lemma elevators_share_floors_add_elevator:
  assumes "elevators_share_floors b" and "\<forall>xs. set (ord xs) = set xs"
  shows "elevators_share_floors (snd (add_elevator b c s ord))"
  using assms
  by (auto simp add: elevators_share_floors_def add_elevator_def Elevator_init_def list_all_iff
      split: sum.splits list.splits)

lemma elevators_share_floors_wait:
  "elevators_share_floors b \<Longrightarrow> elevators_share_floors (snd (wait b p fl dir))"
  by (auto simp add: elevators_share_floors_def wait_def wait_set_def store_wait_set_def
      split: option.splits if_splits)

lemma elevators_share_floors_stop_waiting:
  "elevators_share_floors b \<Longrightarrow> elevators_share_floors (snd (stop_waiting b p fl dir))"
  by (auto simp add: elevators_share_floors_def stop_waiting_def wait_set_def store_wait_set_def
      split: option.splits if_splits)

lemma valid_floors_add_stop: "valid_floors (snd (add_stop e fl)) = valid_floors e"
  by (simp add: add_stop_def)

lemma valid_floors_apply_op: "valid_floors (apply_op e x) = valid_floors e"
  by (cases x) (auto simp add: enter_def exit_elevator_def open_doors_def close_doors_def
      add_stop_def remove_stop_def set_direction_def set_location_def)

lemma elevators_share_floors_call_to:
  assumes "elevators_share_floors b"
  shows "elevators_share_floors (snd (call_to b fl dir))"
proof (cases "nearest_elevator_dispatch_strategy (elevators b) (floors b) fl dir")
  case None
  then show ?thesis
    using assms by (simp add: call_to_def)
next
  case (Some i)
  let ?e' = "snd (add_stop (elevators b ! i) fl)"
  have res: "snd (call_to b fl dir) = b\<lparr>elevators := (elevators b)[i := ?e']\<rparr>"
    using Some by (simp add: call_to_def split: prod.splits sum.splits)
  show ?thesis
  proof (cases "i < length (elevators b)")
    case True
    then have "valid_floors ?e' = floors b"
      using assms by (simp add: valid_floors_add_stop elevators_share_floors_def list_all_length)
    moreover have "set ((elevators b)[i := ?e']) \<subseteq> insert ?e' (set (elevators b))"
      by (rule set_update_subset_insert)
    ultimately show ?thesis
      using assms res by (auto simp add: elevators_share_floors_def list_all_iff)
  next
    case False
    then have "(elevators b)[i := ?e'] = elevators b"
      by (simp add: list_update_beyond)
    then show ?thesis
      using assms res by (simp add: elevators_share_floors_def)
  qed
qed

section \<open>The direction policy\<close>

text \<open>
  An idle elevator away from both ends of the shaft: it stays when it has no stop or
  stands on one, and otherwise the test \<open>self.distance(...) > 0\<close> decides. A distance
  is an absolute value, positive for every floor but the elevator's own, so the
  test holds for whichever stop iteration yields first and the answer is up.
\<close>

lemma next_direction_idle_stay:
  assumes "idle e" and "location e \<noteq> hd (valid_floors e)"
    and "location e \<noteq> last (valid_floors e)"
    and "stops e = [] \<or> location e \<in> set (stops e)"
  shows "next_direction e = 0"
  using assms by (auto simp add: next_direction_def idle_def split: option.splits)

lemma next_direction_idle_off_stop:
  assumes "idle e" and "location e \<noteq> hd (valid_floors e)"
    and "location e \<noteq> last (valid_floors e)"
    and "stops e \<noteq> []" and "location e \<notin> set (stops e)"
  shows "next_direction e = 1"
proof -
  have "hd (stops e) \<in> set (stops e)"
    using assms(4) by simp
  then have "hd (stops e) \<noteq> location e"
    using assms(5) by metis
  then have "distance e (hd (stops e)) > 0"
    by (cases "location e"; cases "hd (stops e)") (simp add: distance_def floor_distance_def)
  then show ?thesis
    using assms by (simp add: next_direction_def idle_def split: option.splits)
qed

text \<open>
  C2. The claim: an idle elevator between the ends turns towards its stop, down when
  the stop lies below. The code at an idle elevator on floor 2 of 3 whose only stop
  is floor 1, below it: \<open>next_direction\<close> is 1, up. The branch \<open>else -1\<close> is never
  taken, since the distance to a stop the elevator is not on is positive.
\<close>

theorem C2_idle_elevator_below_stop_goes_up:
  "idle (example_elevator\<lparr>stops := [Floor 1]\<rparr>) \<and>
   location (example_elevator\<lparr>stops := [Floor 1]\<rparr>) = Floor 2 \<and>
   valid_floors (example_elevator\<lparr>stops := [Floor 1]\<rparr>) = [Floor 1, Floor 2, Floor 3] \<and>
   level (Floor 1) < level (Floor 2) \<and>
   next_direction (example_elevator\<lparr>stops := [Floor 1]\<rparr>) = 1"
  by (simp add: example_elevator_def example_floors_def next_direction_def idle_def
      distance_def floor_distance_def)

text \<open>
  C4. A moving elevator (direction 1 or -1) that is neither on the first nor on the
  last valid floor keeps its direction when some stop is not moved away from, that
  is, when for some stop the distance from the next location is not greater than
  the distance from the current location; it reverses when every stop is moved
  away from (also when there is no stop).
\<close>

theorem C4_moving_elevator_keeps_or_reverses:
  assumes "valid_floors e \<noteq> []"
    and "direction e = Some d" and "d = 1 \<or> d = - 1"
    and "location e \<noteq> hd (valid_floors e)" and "location e \<noteq> last (valid_floors e)"
  shows "next_direction e =
     (if \<exists>fl \<in> set (stops e).
           \<not> floor_distance (next_location e) fl > floor_distance (location e) fl
      then d else - d)"
  using assms by (auto simp add: next_direction_def moving_away_def list_all_iff)

theorem C4_witness:
  "valid_floors (example_elevator\<lparr>direction := Some 1, stops := [Floor 3]\<rparr>) \<noteq> [] \<and>
   direction (example_elevator\<lparr>direction := Some 1, stops := [Floor 3]\<rparr>) = Some 1 \<and>
   next_direction (example_elevator\<lparr>direction := Some 1, stops := [Floor 3]\<rparr>) = 1 \<and>
   next_direction (example_elevator\<lparr>direction := Some 1, stops := [Floor 1]\<rparr>) = - 1"
  using C4_moving_elevator_keeps_or_reverses
      [of "example_elevator\<lparr>direction := Some 1, stops := [Floor 3]\<rparr>" 1]
    C4_moving_elevator_keeps_or_reverses
      [of "example_elevator\<lparr>direction := Some 1, stops := [Floor 1]\<rparr>" 1]
  by (simp add: example_elevator_def example_floors_def next_location_def floor_distance_def)

text \<open>
  C5, as amended. On the first valid floor \<open>next_direction\<close> is up, whatever the
  direction and the stops; on the last valid floor it is down, unless that floor is
  also the first one (a shaft of one floor), where the first test wins and the
  answer is up.
\<close>

theorem C5_boundary_override:
  "valid_floors e \<noteq> [] \<Longrightarrow>
   (location e = hd (valid_floors e) \<longrightarrow> next_direction e = 1) \<and>
   (location e = last (valid_floors e) \<and> location e \<noteq> hd (valid_floors e) \<longrightarrow>
      next_direction e = - 1)"
  by (simp add: next_direction_def)

theorem C5_witness:
  "valid_floors (example_elevator\<lparr>location := Floor 1\<rparr>) \<noteq> [] \<and>
   location (example_elevator\<lparr>location := Floor 1\<rparr>) =
     hd (valid_floors (example_elevator\<lparr>location := Floor 1\<rparr>)) \<and>
   next_direction (example_elevator\<lparr>location := Floor 1\<rparr>) = 1 \<and>
   location (example_elevator\<lparr>location := Floor 3\<rparr>) =
     last (valid_floors (example_elevator\<lparr>location := Floor 3\<rparr>)) \<and>
   location (example_elevator\<lparr>location := Floor 3\<rparr>) \<noteq>
     hd (valid_floors (example_elevator\<lparr>location := Floor 3\<rparr>)) \<and>
   next_direction (example_elevator\<lparr>location := Floor 3\<rparr>) = - 1"
  using C5_boundary_override [of "example_elevator\<lparr>location := Floor 1\<rparr>"]
    C5_boundary_override [of "example_elevator\<lparr>location := Floor 3\<rparr>"]
  by (simp add: example_elevator_def example_floors_def)

text \<open>
  C5 as the claim states it fails in a shaft of one floor: the elevator stands on
  the highest valid floor and \<open>next_direction\<close> is not down.
\<close>

theorem C5_counterexample:
  "valid_floors single_floor_elevator \<noteq> [] \<and>
   location single_floor_elevator = last (valid_floors single_floor_elevator) \<and>
   next_direction single_floor_elevator \<noteq> - 1"
  by (simp add: single_floor_elevator_def next_direction_def)

section \<open>Boarding and leaving\<close>

text \<open>
  C9. With the doors closed \<open>enter\<close> and \<open>exit\<close> raise the closed-doors error for
  every person; with the doors open \<open>exit\<close> raises (a \<open>KeyError\<close>) for a person who
  is not aboard. The elevator, and so its passenger set, is as before in each case.
\<close>

theorem C9_enter_exit_failures:
  "(\<not> is_open e \<longrightarrow>
      enter e p = (Inl (RuntimeError ''Unable to enter elevator, doors are closed''), e) \<and>
      exit_elevator e p = (Inl (RuntimeError ''Unable to exit elevator, doors are closed''), e)) \<and>
   (is_open e \<and> p |\<notin>| passengers e \<longrightarrow> exit_elevator e p = (Inl KeyError, e))"
  by (simp add: enter_def exit_elevator_def)

theorem C9_witness:
  "\<not> is_open example_elevator \<and>
   enter example_elevator 7 =
     (Inl (RuntimeError ''Unable to enter elevator, doors are closed''), example_elevator) \<and>
   exit_elevator example_elevator 7 =
     (Inl (RuntimeError ''Unable to exit elevator, doors are closed''), example_elevator) \<and>
   is_open (open_doors example_elevator) \<and>
   7 |\<notin>| passengers (open_doors example_elevator) \<and>
   exit_elevator (open_doors example_elevator) 7 = (Inl KeyError, open_doors example_elevator)"
  using C9_enter_exit_failures [of example_elevator 7]
    C9_enter_exit_failures [of "open_doors example_elevator" 7]
  by (simp add: example_elevator_def is_open_def open_doors_def)

section \<open>Waiting at a bank\<close>

lemma wait_twice: "wait b p fl dir = (Inr (), b') \<Longrightarrow> wait b' p fl dir = (Inr (), b')"
  by (auto simp add: wait_def wait_set_def store_wait_set_def split: option.splits if_splits)

lemma wait_holds_person:
  "wait b p fl dir = (Inr (), b') \<Longrightarrow> \<exists>s. waiting_passengers b' fl dir = Inr s \<and> p |\<in>| s"
  by (auto simp add: wait_def waiting_passengers_def wait_set_def store_wait_set_def
      split: option.splits if_splits)

text \<open>
  C7, as amended. For a serviced floor, \<open>wait\<close> raises the invalid-direction error
  exactly when the direction is \<open>None\<close> or 0, and then changes nothing. A positive
  direction adds the person to the floor's set of the up list, a negative one to
  that of the down list. A second \<open>wait\<close> with the same arguments succeeds and
  leaves the bank, and so the wait set and its size, as the first call left it.
\<close>

theorem C7_wait_direction_and_idempotence:
  assumes "bank_invariant b" and "fl \<in> set (floors b)"
  shows "((\<exists>err. fst (wait b p fl dir) = Inl err) = (dir = None \<or> dir = Some 0)) \<and>
    (dir = None \<or> dir = Some 0 \<longrightarrow>
       wait b p fl dir = (Inl (ValueError ''Not a valid direction''), b)) \<and>
    (\<forall>d. dir = Some d \<and> d > 0 \<longrightarrow>
       (\<exists>s. wait_list_up b fl = Some s \<and>
            wait b p fl dir =
              (Inr (), b\<lparr>wait_list_up := (wait_list_up b)(fl \<mapsto> finsert p s)\<rparr>))) \<and>
    (\<forall>d. dir = Some d \<and> d < 0 \<longrightarrow>
       (\<exists>s. wait_list_down b fl = Some s \<and>
            wait b p fl dir =
              (Inr (), b\<lparr>wait_list_down := (wait_list_down b)(fl \<mapsto> finsert p s)\<rparr>))) \<and>
    (\<forall>b'. wait b p fl dir = (Inr (), b') \<longrightarrow>
       wait b' p fl dir = (Inr (), b') \<and>
       (\<exists>s. waiting_passengers b' fl dir = Inr s \<and> p |\<in>| s \<and>
            waiting_passengers (snd (wait b' p fl dir)) fl dir = Inr s))"
proof -
  obtain su where su: "wait_list_up b fl = Some su"
    using serviced_up [OF assms] by blast
  obtain sd where sd: "wait_list_down b fl = Some sd"
    using serviced_down [OF assms] by blast
  have twice: "wait b' p fl dir = (Inr (), b') \<and>
       (\<exists>s. waiting_passengers b' fl dir = Inr s \<and> p |\<in>| s \<and>
            waiting_passengers (snd (wait b' p fl dir)) fl dir = Inr s)"
    if "wait b p fl dir = (Inr (), b')" for b'
    using wait_twice [OF that] wait_holds_person [OF that] by auto
  have rest: "((\<exists>err. fst (wait b p fl dir) = Inl err) = (dir = None \<or> dir = Some 0)) \<and>
    (dir = None \<or> dir = Some 0 \<longrightarrow>
       wait b p fl dir = (Inl (ValueError ''Not a valid direction''), b)) \<and>
    (\<forall>d. dir = Some d \<and> d > 0 \<longrightarrow>
       (\<exists>s. wait_list_up b fl = Some s \<and>
            wait b p fl dir =
              (Inr (), b\<lparr>wait_list_up := (wait_list_up b)(fl \<mapsto> finsert p s)\<rparr>))) \<and>
    (\<forall>d. dir = Some d \<and> d < 0 \<longrightarrow>
       (\<exists>s. wait_list_down b fl = Some s \<and>
            wait b p fl dir =
              (Inr (), b\<lparr>wait_list_down := (wait_list_down b)(fl \<mapsto> finsert p s)\<rparr>)))"
    using su sd
    by (auto simp add: wait_def wait_set_def store_wait_set_def split: option.splits)
  show ?thesis
    using rest twice by blast
qed

theorem C7_witness:
  "bank_invariant example_bank \<and> Floor 1 \<in> set (floors example_bank) \<and>
   wait example_bank 7 (Floor 1) (Some 0) = (Inl (ValueError ''Not a valid direction''), example_bank) \<and>
   fst (wait example_bank 7 (Floor 1) (Some 1)) = Inr () \<and>
   waiting_passengers (snd (wait example_bank 7 (Floor 1) (Some 1))) (Floor 1) (Some 1) = Inr {|7|} \<and>
   wait (snd (wait example_bank 7 (Floor 1) (Some 1))) 7 (Floor 1) (Some 1) =
     (Inr (), snd (wait example_bank 7 (Floor 1) (Some 1)))"
proof -
  have fl: "Floor 1 \<in> set (floors example_bank)"
    by (simp add: floors_example_bank example_floors_def)
  have up: "wait_list_up example_bank (Floor 1) = Some {||}"
    by (simp add: example_bank_def add_elevator_def ElevatorBank_init_def Elevator_init_def
        example_floors_def)
  show ?thesis
    using C7_wait_direction_and_idempotence [OF bank_invariant_example fl, of 7 "Some 0"]
      C7_wait_direction_and_idempotence [OF bank_invariant_example fl, of 7 "Some 1"] up
    by (auto simp add: bank_invariant_example fl waiting_passengers_def wait_set_def)
qed

text \<open>
  C7 as the claim states it fails for the direction 2, which is neither +1 nor -1:
  \<open>wait\<close> raises nothing and adds the person to the up list.
\<close>

theorem C7_counterexample: "Some (2::int) \<noteq> Some 1 \<and> Some (2::int) \<noteq> Some (- 1) \<and>
   Floor 1 \<in> set (floors example_bank) \<and>
   wait example_bank 7 (Floor 1) (Some 2) =
     (Inr (), example_bank\<lparr>wait_list_up := (wait_list_up example_bank)(Floor 1 \<mapsto> {|7|})\<rparr>)"
  by (simp add: example_bank_def add_elevator_def Elevator_init_def ElevatorBank_init_def
      example_floors_def wait_def wait_set_def store_wait_set_def)

text \<open>
  C10. For a floor that is not among the bank's floors, \<open>wait\<close>, \<open>stop_waiting\<close> and
  \<open>waiting_passengers\<close> all raise and leave the bank as it is. With a valid
  direction (an integer other than 0) the error is the \<open>KeyError\<close> of the lookup in
  the wait list, which has no entry for the floor.
\<close>

theorem C10_unserviced_floor: "bank_invariant b \<Longrightarrow> fl \<notin> set (floors b) \<Longrightarrow>
   (\<exists>err. wait b p fl dir = (Inl err, b)) \<and>
   (\<exists>err. stop_waiting b p fl dir = (Inl err, b)) \<and>
   (\<exists>err. waiting_passengers b fl dir = Inl err) \<and>
   (\<forall>d. dir = Some d \<and> d \<noteq> 0 \<longrightarrow>
      wait b p fl dir = (Inl KeyError, b) \<and>
      stop_waiting b p fl dir = (Inl KeyError, b) \<and>
      waiting_passengers b fl dir = Inl KeyError)"
  by (auto simp add: bank_invariant_def wait_def stop_waiting_def waiting_passengers_def wait_set_def
      split: option.splits)

theorem C10_witness:
  "bank_invariant example_bank \<and> Floor 9 \<notin> set (floors example_bank) \<and>
   wait example_bank 7 (Floor 9) (Some 1) = (Inl KeyError, example_bank) \<and>
   stop_waiting example_bank 7 (Floor 9) (Some (- 1)) = (Inl KeyError, example_bank) \<and>
   waiting_passengers example_bank (Floor 9) (Some 1) = Inl KeyError"
  using C10_unserviced_floor [OF bank_invariant_example, of "Floor 9" 7 "Some 1"]
    C10_unserviced_floor [OF bank_invariant_example, of "Floor 9" 7 "Some (- 1)"]
  by (simp add: bank_invariant_example floors_example_bank example_floors_def)

section \<open>Capacity\<close>

lemma apply_op_capacity: "capacity (apply_op e x) = capacity e"
  by (cases x) (auto simp add: enter_def exit_elevator_def open_doors_def close_doors_def
      add_stop_def remove_stop_def set_direction_def set_location_def)

lemma enter_bound:
  "int (fcard (passengers e)) \<le> capacity e \<Longrightarrow>
   int (fcard (passengers (snd (enter e p)))) \<le> capacity e"
  by (auto simp add: enter_def full_def fcard_finsert_if)

lemma exit_bound:
  assumes "int (fcard (passengers e)) \<le> capacity e"
  shows "int (fcard (passengers (snd (exit_elevator e p)))) \<le> capacity e"
proof -
  have "fcard (passengers e |-| {|p|}) \<le> fcard (passengers e)"
    by (rule fcard_fminus1_le)
  then show ?thesis
    using assms by (auto simp add: exit_elevator_def)
qed

lemma apply_op_bound:
  "int (fcard (passengers e)) \<le> capacity e \<Longrightarrow>
   int (fcard (passengers (apply_op e x))) \<le> capacity e"
  by (cases x) (auto simp add: enter_bound exit_bound open_doors_def close_doors_def
      add_stop_def remove_stop_def set_direction_def set_location_def)

lemma run_ops_bound:
  "int (fcard (passengers e)) \<le> capacity e \<Longrightarrow>
   int (fcard (passengers (run_ops e xs))) \<le> capacity e \<and>
   capacity (run_ops e xs) = capacity e"
proof (induction xs arbitrary: e)
  case Nil
  then show ?case by simp
next
  case (Cons x xs)
  have "int (fcard (passengers (apply_op e x))) \<le> capacity (apply_op e x)"
    using Cons.prems by (simp add: apply_op_bound apply_op_capacity)
  from Cons.IH [OF this] show ?case
    by (simp add: apply_op_capacity)
qed

lemma board_all_room:
  "is_open e \<Longrightarrow> distinct ps \<Longrightarrow> set ps \<inter> fset (passengers e) = {} \<Longrightarrow>
   int (fcard (passengers e)) + int (length ps) \<le> capacity e \<Longrightarrow>
   board_all e ps = (Inr (), e\<lparr>passengers := passengers e |\<union>| fset_of_list ps\<rparr>) \<and>
   fcard (passengers e |\<union>| fset_of_list ps) = fcard (passengers e) + length ps"
proof (induction ps arbitrary: e)
  case Nil
  then show ?case by simp
next
  case (Cons p ps)
  let ?e' = "e\<lparr>passengers := finsert p (passengers e)\<rparr>"
  have notin: "p |\<notin>| passengers e"
    using Cons.prems(3) by auto
  have step: "enter e p = (Inr (), ?e')"
    using Cons.prems by (simp add: enter_def full_def)
  have card: "fcard (passengers ?e') = Suc (fcard (passengers e))"
    using notin by (simp add: fcard_finsert_disjoint)
  have "is_open ?e'" "distinct ps" "set ps \<inter> fset (passengers ?e') = {}"
    "int (fcard (passengers ?e')) + int (length ps) \<le> capacity ?e'"
    using Cons.prems card by (auto simp add: is_open_def)
  from Cons.IH [OF this] show ?case
    using step card by simp
qed

text \<open>
  C6. For an elevator of capacity k that starts empty, no sequence of calls of its
  methods (each call leaving the elevator as it is when it raises) brings the number
  of passengers above k. With the doors open, k distinct people board one after the
  other without a raise; a further \<open>enter\<close>, whoever asks, raises the capacity error
  and leaves the elevator, and so its passenger set, as it was.
\<close>

theorem C6_capacity_bound:
  assumes "capacity e = int k" and "passengers e = {||}"
  shows "(\<forall>ops. int (fcard (passengers (run_ops e ops))) \<le> int k) \<and>
    (distinct ps \<and> length ps = k \<longrightarrow>
       board_all (open_doors e) ps = (Inr (), open_doors e\<lparr>passengers := fset_of_list ps\<rparr>) \<and>
       fcard (fset_of_list ps) = k \<and>
       enter (open_doors e\<lparr>passengers := fset_of_list ps\<rparr>) q =
         (Inl (RuntimeError ''Unable to enter elevator, would exceed capacity''),
          open_doors e\<lparr>passengers := fset_of_list ps\<rparr>))"
proof -
  have start: "int (fcard (passengers e)) \<le> capacity e"
    using assms by (simp add: fcard_fempty)
  have inv: "\<forall>ops. int (fcard (passengers (run_ops e ops))) \<le> int k"
    using run_ops_bound [OF start] assms(1) by simp
  have board: "board_all (open_doors e) ps = (Inr (), open_doors e\<lparr>passengers := fset_of_list ps\<rparr>) \<and>
       fcard (fset_of_list ps) = k \<and>
       enter (open_doors e\<lparr>passengers := fset_of_list ps\<rparr>) q =
         (Inl (RuntimeError ''Unable to enter elevator, would exceed capacity''),
          open_doors e\<lparr>passengers := fset_of_list ps\<rparr>)"
    if ps: "distinct ps" "length ps = k"
  proof -
    have "is_open (open_doors e)" "set ps \<inter> fset (passengers (open_doors e)) = {}"
      "int (fcard (passengers (open_doors e))) + int (length ps) \<le> capacity (open_doors e)"
      using assms ps by (simp_all add: is_open_def open_doors_def)
    from board_all_room [OF this(1) ps(1) this(2,3)]
    have b: "board_all (open_doors e) ps = (Inr (), open_doors e\<lparr>passengers := fset_of_list ps\<rparr>)"
      and c: "fcard (fset_of_list ps) = k"
      using assms ps by (simp_all add: open_doors_def)
    have "enter (open_doors e\<lparr>passengers := fset_of_list ps\<rparr>) q =
         (Inl (RuntimeError ''Unable to enter elevator, would exceed capacity''),
          open_doors e\<lparr>passengers := fset_of_list ps\<rparr>)"
      using c assms(1) by (simp add: enter_def is_open_def open_doors_def full_def)
    with b c show ?thesis by simp
  qed
  show ?thesis using inv board by blast
qed

theorem C6_witness:
  "capacity example_elevator = int 2 \<and> passengers example_elevator = {||} \<and>
   int (fcard (passengers (run_ops example_elevator
      [OpenDoors, Enter 1, Enter 2, Enter 3, Exit 1, Enter 4, CloseDoors, Enter 5]))) \<le> int 2 \<and>
   distinct [4, 5 :: nat] \<and> length [4, 5 :: nat] = 2 \<and>
   board_all (open_doors example_elevator) [4, 5] =
     (Inr (), open_doors example_elevator\<lparr>passengers := fset_of_list [4, 5]\<rparr>) \<and>
   enter (open_doors example_elevator\<lparr>passengers := fset_of_list [4, 5]\<rparr>) 6 =
     (Inl (RuntimeError ''Unable to enter elevator, would exceed capacity''),
      open_doors example_elevator\<lparr>passengers := fset_of_list [4, 5]\<rparr>)"
proof -
  have hyps: "capacity example_elevator = int 2" "passengers example_elevator = {||}"
    by (simp_all add: example_elevator_def)
  have ps: "distinct [4, 5 :: nat]" "length [4, 5 :: nat] = 2"
    by simp_all
  from C6_capacity_bound [OF hyps, of "[4, 5]" 6] ps
  have "\<forall>ops. int (fcard (passengers (run_ops example_elevator ops))) \<le> int 2"
    and "board_all (open_doors example_elevator) [4, 5] =
       (Inr (), open_doors example_elevator\<lparr>passengers := fset_of_list [4, 5]\<rparr>)"
    and "enter (open_doors example_elevator\<lparr>passengers := fset_of_list [4, 5]\<rparr>) 6 =
         (Inl (RuntimeError ''Unable to enter elevator, would exceed capacity''),
          open_doors example_elevator\<lparr>passengers := fset_of_list [4, 5]\<rparr>)"
    by blast+
  then show ?thesis
    using hyps ps by blast
qed

section \<open>Dispatch\<close>

text \<open>
  The loop either leaves its result as it was, when no elevator scores above it, or
  ends with the first elevator whose score is the greatest, which is above the
  score the loop started with.
\<close>

lemma dispatch_loop_spec:
  "dispatch_loop fs fl dir i es (r, m) = (r', m') \<Longrightarrow>
   (r' = r \<and> m' = m \<and> (\<forall>e\<in>set es. suitability fs fl dir e \<le> m)) \<or>
   (\<exists>k<length es. r' = Some (i + k) \<and> m' = suitability fs fl dir (es ! k) \<and> m < m' \<and>
      (\<forall>j<k. suitability fs fl dir (es ! j) < m') \<and>
      (\<forall>j<length es. suitability fs fl dir (es ! j) \<le> m'))"
proof (induction es arbitrary: i r m)
  case Nil
  then show ?case by simp
next
  case (Cons e es)
  let ?s = "suitability fs fl dir e"
  show ?case
  proof (cases "?s > m")
    case True
    with Cons.prems have run: "dispatch_loop fs fl dir (Suc i) es (Some i, ?s) = (r', m')"
      by simp
    from Cons.IH [OF run] show ?thesis
    proof
      assume a: "r' = Some i \<and> m' = ?s \<and> (\<forall>e\<in>set es. suitability fs fl dir e \<le> ?s)"
      have "\<forall>j<length (e # es). suitability fs fl dir ((e # es) ! j) \<le> m'"
        using a by (auto simp add: nth_Cons split: nat.splits)
      then show ?thesis
        using a True by (intro disjI2 exI [of _ 0]) simp
    next
      assume "\<exists>k<length es. r' = Some (Suc i + k) \<and> m' = suitability fs fl dir (es ! k) \<and>
        ?s < m' \<and> (\<forall>j<k. suitability fs fl dir (es ! j) < m') \<and>
        (\<forall>j<length es. suitability fs fl dir (es ! j) \<le> m')"
      then obtain k where k: "k < length es" "r' = Some (Suc i + k)"
        "m' = suitability fs fl dir (es ! k)" "?s < m'"
        "\<forall>j<k. suitability fs fl dir (es ! j) < m'"
        "\<forall>j<length es. suitability fs fl dir (es ! j) \<le> m'"
        by blast
      have "\<forall>j<Suc k. suitability fs fl dir ((e # es) ! j) < m'"
        using k by (auto simp add: nth_Cons split: nat.splits)
      moreover have "\<forall>j<length (e # es). suitability fs fl dir ((e # es) ! j) \<le> m'"
        using k by (auto simp add: nth_Cons split: nat.splits)
      ultimately show ?thesis
        using k True by (intro disjI2 exI [of _ "Suc k"]) simp
    qed
  next
    case False
    with Cons.prems have run: "dispatch_loop fs fl dir (Suc i) es (r, m) = (r', m')"
      by simp
    from Cons.IH [OF run] show ?thesis
    proof
      assume "r' = r \<and> m' = m \<and> (\<forall>e\<in>set es. suitability fs fl dir e \<le> m)"
      then show ?thesis
        using False by auto
    next
      assume "\<exists>k<length es. r' = Some (Suc i + k) \<and> m' = suitability fs fl dir (es ! k) \<and>
        m < m' \<and> (\<forall>j<k. suitability fs fl dir (es ! j) < m') \<and>
        (\<forall>j<length es. suitability fs fl dir (es ! j) \<le> m')"
      then obtain k where k: "k < length es" "r' = Some (Suc i + k)"
        "m' = suitability fs fl dir (es ! k)" "m < m'"
        "\<forall>j<k. suitability fs fl dir (es ! j) < m'"
        "\<forall>j<length es. suitability fs fl dir (es ! j) \<le> m'"
        by blast
      have "\<forall>j<Suc k. suitability fs fl dir ((e # es) ! j) < m'"
        using k False by (auto simp add: nth_Cons split: nat.splits)
      moreover have "\<forall>j<length (e # es). suitability fs fl dir ((e # es) ! j) \<le> m'"
        using k False by (auto simp add: nth_Cons split: nat.splits)
      ultimately show ?thesis
        using k by (intro disjI2 exI [of _ "Suc k"]) simp
    qed
  qed
qed

lemma suitability_lower:
  assumes "levels_in_range fs" and "location e \<in> set fs" and "fl \<in> set fs"
  shows "suitability fs fl dir e \<ge> 1"
proof -
  have a: "1 \<le> level (location e) \<and> level (location e) \<le> int (length fs)"
    using assms(1,2) by (auto simp add: levels_in_range_def list_all_iff)
  have b: "1 \<le> level fl \<and> level fl \<le> int (length fs)"
    using assms(1,3) by (auto simp add: levels_in_range_def list_all_iff)
  have "distance e fl \<le> int (length fs) - 1"
    using a b unfolding distance_def floor_distance_def by linarith
  then show ?thesis
    by (simp add: suitability_def Let_def)
qed

lemma dispatch_first_max:
  assumes "e0 \<in> set es" and "suitability fs fl dir e0 > - 1"
  shows "\<exists>k<length es. nearest_elevator_dispatch_strategy es fs fl dir = Some k \<and>
     (\<forall>j<k. suitability fs fl dir (es ! j) < suitability fs fl dir (es ! k)) \<and>
     (\<forall>j<length es. suitability fs fl dir (es ! j) \<le> suitability fs fl dir (es ! k))"
proof -
  obtain r' m' where run: "dispatch_loop fs fl dir 0 es (None, - 1) = (r', m')"
    by (cases "dispatch_loop fs fl dir 0 es (None, - 1)") 
  from dispatch_loop_spec [OF run] show ?thesis
  proof
    assume "r' = None \<and> m' = - 1 \<and> (\<forall>e\<in>set es. suitability fs fl dir e \<le> - 1)"
    then show ?thesis using assms by force
  next
    assume "\<exists>k<length es. r' = Some (0 + k) \<and> m' = suitability fs fl dir (es ! k) \<and> - 1 < m' \<and>
      (\<forall>j<k. suitability fs fl dir (es ! j) < m') \<and>
      (\<forall>j<length es. suitability fs fl dir (es ! j) \<le> m')"
    then show ?thesis
      using run by (auto simp add: nearest_elevator_dispatch_strategy_def)
  qed
qed

lemma add_stop_valid:
  "fl \<in> set (valid_floors e) \<Longrightarrow>
   \<exists>e'. add_stop e fl = (Inr (), e') \<and> set (stops e') = insert fl (set (stops e)) \<and>
        e' = e\<lparr>stops := stops e'\<rparr>"
  by (auto simp add: add_stop_def)

text \<open>
  C1, as amended. Let every elevator of the bank have the bank's floors as its valid
  floors, as \<open>add_elevator\<close> builds it, let F be the number of the bank's floors and
  the call floor be one of them. If some elevator has suitability above -1, the
  score the selection starts from, then \<open>call_to\<close> returns the first elevator, in
  encounter order, whose suitability is greatest (no earlier elevator reaches its
  score, no elevator exceeds it) and adds the call floor to the stops of that
  elevator and to nothing else. Some elevator has suitability above -1 whenever the
  bank has an elevator, the levels of its floors lie within 1 .. F and every
  elevator stands on one of its floors. The suitability is 1 for an elevator moving
  away from the floor at nonzero distance, F + 2 - distance for one whose direction
  is the requested one or that is idle, F + 1 - distance otherwise.
\<close>

theorem C1_call_to_first_best_elevator:
  assumes "fl \<in> set (floors b)" and "elevators_share_floors b"
  shows "((\<exists>e\<in>set (elevators b). - 1 < suitability (floors b) fl dir e) \<longrightarrow>
      (\<exists>i<length (elevators b).
         (\<forall>j<length (elevators b).
            suitability (floors b) fl dir (elevators b ! j)
              \<le> suitability (floors b) fl dir (elevators b ! i)) \<and>
         (\<forall>j<i. suitability (floors b) fl dir (elevators b ! j)
              < suitability (floors b) fl dir (elevators b ! i)) \<and>
         (\<exists>e'. call_to b fl dir = (Inr i, b\<lparr>elevators := (elevators b)[i := e']\<rparr>) \<and>
               set (stops e') = insert fl (set (stops (elevators b ! i))) \<and>
               e' = (elevators b ! i)\<lparr>stops := stops e'\<rparr>))) \<and>
     (elevators b \<noteq> [] \<and> levels_in_range (floors b) \<and> elevators_on_floors b \<longrightarrow>
        (\<exists>e\<in>set (elevators b). - 1 < suitability (floors b) fl dir e)) \<and>
     (\<forall>e. suitability (floors b) fl dir e =
        (if moving_away e fl \<and> distance e fl \<noteq> 0 then 1
         else if direction e = dir \<or> idle e then int (length (floors b)) + 2 - distance e fl
         else int (length (floors b)) + 1 - distance e fl))"
proof -
  have share: "\<forall>e\<in>set (elevators b). valid_floors e = floors b"
    using assms(2) by (simp add: elevators_share_floors_def list_all_iff)
  have main: "\<exists>i<length (elevators b).
         (\<forall>j<length (elevators b).
            suitability (floors b) fl dir (elevators b ! j)
              \<le> suitability (floors b) fl dir (elevators b ! i)) \<and>
         (\<forall>j<i. suitability (floors b) fl dir (elevators b ! j)
              < suitability (floors b) fl dir (elevators b ! i)) \<and>
         (\<exists>e'. call_to b fl dir = (Inr i, b\<lparr>elevators := (elevators b)[i := e']\<rparr>) \<and>
               set (stops e') = insert fl (set (stops (elevators b ! i))) \<and>
               e' = (elevators b ! i)\<lparr>stops := stops e'\<rparr>)"
    if "\<exists>e\<in>set (elevators b). - 1 < suitability (floors b) fl dir e"
  proof -
    from that obtain e0 where e0: "e0 \<in> set (elevators b)"
      "- 1 < suitability (floors b) fl dir e0"
      by blast
    from dispatch_first_max [OF e0]
    obtain k where k: "k < length (elevators b)"
      "nearest_elevator_dispatch_strategy (elevators b) (floors b) fl dir = Some k"
      "\<forall>j<k. suitability (floors b) fl dir (elevators b ! j)
          < suitability (floors b) fl dir (elevators b ! k)"
      "\<forall>j<length (elevators b). suitability (floors b) fl dir (elevators b ! j)
          \<le> suitability (floors b) fl dir (elevators b ! k)"
      by blast
    have "fl \<in> set (valid_floors (elevators b ! k))"
      using share k(1) assms(1) by simp
    from add_stop_valid [OF this]
    obtain e' where e': "add_stop (elevators b ! k) fl = (Inr (), e')"
      "set (stops e') = insert fl (set (stops (elevators b ! k)))"
      "e' = (elevators b ! k)\<lparr>stops := stops e'\<rparr>"
      by blast
    have "call_to b fl dir = (Inr k, b\<lparr>elevators := (elevators b)[k := e']\<rparr>)"
      using k(2) e'(1) by (simp add: call_to_def)
    then have "\<exists>e'. call_to b fl dir = (Inr k, b\<lparr>elevators := (elevators b)[k := e']\<rparr>) \<and>
           set (stops e') = insert fl (set (stops (elevators b ! k))) \<and>
           e' = (elevators b ! k)\<lparr>stops := stops e'\<rparr>"
      using e'(2,3) by blast
    then show ?thesis
      using k(1,3,4) by blast
  qed
  have enough: "\<exists>e\<in>set (elevators b). - 1 < suitability (floors b) fl dir e"
    if wf: "elevators b \<noteq> [] \<and> levels_in_range (floors b) \<and> elevators_on_floors b"
  proof -
    have e0: "hd (elevators b) \<in> set (elevators b)"
      using wf by simp
    then have "location (hd (elevators b)) \<in> set (floors b)"
      using wf by (simp add: elevators_on_floors_def list_all_iff)
    then have "suitability (floors b) fl dir (hd (elevators b)) \<ge> 1"
      using wf assms(1) by (intro suitability_lower) auto
    then have "- 1 < suitability (floors b) fl dir (hd (elevators b))"
      by simp
    then show ?thesis
      using e0 by blast
  qed
  have formula: "\<forall>e. suitability (floors b) fl dir e =
        (if moving_away e fl \<and> distance e fl \<noteq> 0 then 1
         else if direction e = dir \<or> idle e then int (length (floors b)) + 2 - distance e fl
         else int (length (floors b)) + 1 - distance e fl)"
    by (simp add: suitability_def Let_def)
  show ?thesis
    using main enough formula by blast
qed

text \<open>
  The two elevators of the example, on floor 1 and on floor 3, score 4 each for a
  call from floor 2: the one the iteration yields first gets the stop, whichever of
  the two it is.
\<close>

theorem C1_witness:
  "Floor 2 \<in> set (floors example_bank2) \<and> elevators_share_floors example_bank2 \<and>
   map location (elevators example_bank2) = [Floor 1, Floor 3] \<and>
   suitability (floors example_bank2) (Floor 2) (Some 1) (elevators example_bank2 ! 0) = 4 \<and>
   suitability (floors example_bank2) (Floor 2) (Some 1) (elevators example_bank2 ! 1) = 4 \<and>
   fst (call_to example_bank2 (Floor 2) (Some 1)) = Inr 0 \<and>
   map stops (elevators (snd (call_to example_bank2 (Floor 2) (Some 1)))) = [[Floor 2], []] \<and>
   Floor 2 \<in> set (floors example_bank2_other_order) \<and>
   elevators_share_floors example_bank2_other_order \<and>
   map location (elevators example_bank2_other_order) = [Floor 3, Floor 1] \<and>
   fst (call_to example_bank2_other_order (Floor 2) (Some 1)) = Inr 0 \<and>
   map stops (elevators (snd (call_to example_bank2_other_order (Floor 2) (Some 1)))) =
     [[Floor 2], []]"
  using C1_call_to_first_best_elevator [of "Floor 2" example_bank2 "Some 1"]
    C1_call_to_first_best_elevator [of "Floor 2" example_bank2_other_order "Some 1"]
  by (simp add: example_bank2_def example_bank2_other_order_def example_bank_def
      add_elevator_def ElevatorBank_init_def
      Elevator_init_def example_floors_def elevators_share_floors_def
      suitability_def moving_away_def next_location_def distance_def floor_distance_def idle_def
      call_to_def nearest_elevator_dispatch_strategy_def add_stop_def)

text \<open>
  C1 as the claim states it fails in two ways, each time for a bank with an
  elevator. For a call floor the bank does not service, floor 5 of a three-floor
  bank, \<open>call_to\<close> raises the invalid-floor error of \<open>add_stop\<close>. For a bank over
  the levels 1 and 10 and a call from its own floor of level 10, the only score is
  2 + 2 - 9, not above -1: the strategy returns \<open>None\<close> and \<open>call_to\<close> raises
  \<open>AttributeError\<close>. No elevator gets a stop in either case.
\<close>

theorem C1_counterexample:
  "elevators example_bank \<noteq> [] \<and>
   call_to example_bank (Floor 5) (Some 1) =
     (Inl (ValueError ''Floor does not exist in the list of valid floors for this elevator''),
      example_bank) \<and>
   map stops (elevators example_bank) = [[]] \<and>
   elevators gapped_bank \<noteq> [] \<and>
   Floor 10 \<in> set (floors gapped_bank) \<and>
   elevators_share_floors gapped_bank \<and>
   map (suitability (floors gapped_bank) (Floor 10) (Some 1)) (elevators gapped_bank) = [- 5] \<and>
   call_to gapped_bank (Floor 10) (Some 1) = (Inl AttributeError, gapped_bank) \<and>
   map stops (elevators gapped_bank) = [[]]"
  by (simp add: example_bank_def gapped_bank_def add_elevator_def ElevatorBank_init_def
      Elevator_init_def example_floors_def elevators_share_floors_def
      suitability_def moving_away_def next_location_def distance_def floor_distance_def idle_def
      call_to_def nearest_elevator_dispatch_strategy_def add_stop_def)

text \<open>
  C8. For a bank without elevators \<open>call_to\<close> raises: the strategy returns \<open>None\<close>
  and the call of \<open>add_stop\<close> on it is an \<open>AttributeError\<close>. The bank is as it was,
  so no stop is added anywhere.
\<close>

theorem C8_call_to_without_elevators: "elevators b = [] \<Longrightarrow> call_to b fl dir = (Inl AttributeError, b)"
  by (simp add: call_to_def nearest_elevator_dispatch_strategy_def)

theorem C8_witness: "elevators (ElevatorBank_init example_floors) = [] \<and>
  call_to (ElevatorBank_init example_floors) (Floor 2) (Some 1) =
    (Inl AttributeError, ElevatorBank_init example_floors)"
  using C8_call_to_without_elevators [of "ElevatorBank_init example_floors" "Floor 2" "Some 1"]
  by (simp add: ElevatorBank_init_def)

section \<open>The travel cycle\<close>

text \<open>
  C3. The claim: once the door-open event arrives, the person is in no wait set of
  any bank it registered with. The code with two banks chosen, each as
  \<open>example_bank\<close>, and person 0 travelling from floor 1 to floor 3: the cycle runs
  without a raise, the person is removed from the second bank's wait set (the bank
  the loop variable \<open>agent\<close> still names) and stays in the first bank's wait set for
  (floor 1, up).
\<close>

theorem C3_person_stays_in_first_bank_wait_set:
  "fst (call_and_board 0 (Floor 1) (Floor 3) [example_bank, example_bank]) = Inr () \<and>
   waiting_passengers (snd (call_and_board 0 (Floor 1) (Floor 3) [example_bank, example_bank]) ! 0)
     (Floor 1) (Some 1) = Inr {|0|} \<and>
   waiting_passengers (snd (call_and_board 0 (Floor 1) (Floor 3) [example_bank, example_bank]) ! 1)
     (Floor 1) (Some 1) = Inr {||}"
  by (simp add: call_and_board_def floor_direction_def door_opened_def
      wait_def wait_set_def store_wait_set_def stop_waiting_def waiting_passengers_def
      example_bank_def add_elevator_def ElevatorBank_init_def
      Elevator_init_def example_floors_def 
      suitability_def moving_away_def next_location_def distance_def floor_distance_def idle_def
      call_to_def nearest_elevator_dispatch_strategy_def add_stop_def)

end
